theory Spec2Isabelle
  imports Complex_Main "HOL-Library.Multiset"
begin

section \<open>Teacher ranking from a workbook of scores (index.py)\<close>

text \<open>
  The script has one function, \<open>create_teacher_ranking_excel\<close>. It reads every sheet of
  a workbook with pandas, takes row 0 of each sheet as teacher names, collects the cells
  below each name, averages them per teacher, sorts the teachers by descending mean and
  writes the table with a rank column.

  What pandas does is written out for the calls the function makes: \<open>read_excel\<close> and
  \<open>to_excel\<close> are parameters (their outcome is the environment's), a frame is the list of
  its rows, and selecting a column by a label that occurs twice gives a frame, which has
  no \<open>tolist\<close>. A character stands for a code point below 256.

  Python's numbers are a type parameter \<open>'n\<close> (the ints and floats a cell can hold,
  ordered by value), and their arithmetic is a parameter too: nothing is assumed of the
  addition and the division, so rounding, cancellation and overflow are whatever the
  machine's operations do. The order that pandas gives to rows of equal mean is a
  parameter as well.
\<close>

subsection \<open>Cells, frames, workbooks\<close>

text \<open>A cell read with \<open>header=None\<close> is empty (NaN, here \<open>None\<close>) or holds a value.\<close>

datatype 'n pyval = Number 'n | Text string

type_synonym 'n cell = "'n pyval option"

text \<open>A frame is the list of its rows; pandas builds every row with the same width.\<close>

type_synonym 'n dataframe = "'n cell list list"

text \<open>\<open>read_excel(..., sheet_name=None)\<close> gives the sheets by name, in workbook order.\<close>

type_synonym 'n workbook = "(string \<times> 'n dataframe) list"

datatype 'n read_outcome = FileNotFound | ReadFailed string | Loaded "'n workbook"

text \<open>The arithmetic of lines 76 and 79: the value of the literal \<open>0\<close>, the \<open>+\<close> that
  \<open>sum\<close> applies to its running total and the next score, and the \<open>/\<close> that divides the
  total by \<open>len(scores)\<close>.\<close>

record 'n arith =
  py_zero :: 'n
  py_add :: "'n \<Rightarrow> 'n \<Rightarrow> 'n"
  py_truediv :: "'n \<Rightarrow> nat \<Rightarrow> 'n"

datatype py_error = KeyError | AttributeError | TypeError

datatype msg =
    InputNotFound string
  | InputReadError string
  | EmptySheetWarning string
  | NoDataFound
  | RankingSaved string
  | OutputWriteError string

record 'n ranking_row =
  teacher :: "'n pyval"
  mean_score :: 'n
  rank :: nat

text \<open>What a call leaves behind: the value returned (or the exception that escaped),
  the console lines in order, and the file written, if any.\<close>

record 'n outcome =
  returned :: "py_error + bool"
  printed :: "msg list"
  written :: "(string \<times> 'n ranking_row list) option"

subsection \<open>Teacher names of a sheet\<close>

text \<open>\<open>df.empty\<close>: some axis has length 0.\<close>

definition df_empty :: "'n dataframe \<Rightarrow> bool" where
  "df_empty df = (case df of [] \<Rightarrow> True | r # _ \<Rightarrow> r = [])"

text \<open>\<open>str.isspace\<close> on the code points below 256.\<close>

definition py_isspace :: "char \<Rightarrow> bool" where
  "py_isspace c = ((of_char c :: nat) \<in> {9, 10, 11, 12, 13, 28, 29, 30, 31, 32, 133, 160})"

definition strip :: "string \<Rightarrow> string" where
  "strip s = rev (dropWhile py_isspace (rev (dropWhile py_isspace s)))"

text \<open>The test \<open>pd.notna(name) and str(name).strip() != ''\<close>. The text of a number
  always has a digit, so it is never blank.\<close>

fun keeps_name :: "'n cell \<Rightarrow> bool" where
  "keeps_name None = False"
| "keeps_name (Some (Number x)) = True"
| "keeps_name (Some (Text s)) = (strip s \<noteq> [])"

definition digit_char :: "nat \<Rightarrow> char" where
  "digit_char d = ''0123456789'' ! d"

text \<open>The decimal text of \<open>i\<close> in \<open>f'Unnamed_Teacher_{i}'\<close>.\<close>

fun str_nat :: "nat \<Rightarrow> string" where
  "str_nat n = (if n < 10 then [digit_char n] else str_nat (n div 10) @ [digit_char (n mod 10)])"

declare str_nat.simps [simp del]

definition unnamed_teacher :: "nat \<Rightarrow> 'n pyval" where
  "unnamed_teacher i = Text (''Unnamed_Teacher_'' @ str_nat i)"

text \<open>The kept name is the cell's own value, neither trimmed nor turned into text.\<close>

definition clean_name :: "nat \<Rightarrow> 'n cell \<Rightarrow> 'n pyval" where
  "clean_name i name = (if keeps_name name then the name else unnamed_teacher i)"

definition cleaned_teacher_names :: "'n cell list \<Rightarrow> 'n pyval list" where
  "cleaned_teacher_names names = map (\<lambda>(i, name). clean_name i name) (enumerate 0 names)"

subsection \<open>Selecting a teacher's column\<close>

text \<open>A row shorter than the frame's width reads as empty cells there.\<close>

definition cell_at :: "'n cell list \<Rightarrow> nat \<Rightarrow> 'n cell" where
  "cell_at r j = (if j < length r then r ! j else None)"

definition column :: "'n dataframe \<Rightarrow> nat \<Rightarrow> 'n cell list" where
  "column rows j = map (\<lambda>r. cell_at r j) rows"

datatype 'n selection = Series "'n cell list" | Frame "'n cell list list"

definition positions :: "'n pyval list \<Rightarrow> 'n pyval \<Rightarrow> nat list" where
  "positions cols label = filter (\<lambda>j. cols ! j = label) [0..<length cols]"

text \<open>\<open>scores_only_df[teacher_name]\<close>: one column with that label is a series, several
  are a frame of those columns, none is a KeyError.\<close>

definition getitem :: "'n pyval list \<Rightarrow> 'n dataframe \<Rightarrow> 'n pyval \<Rightarrow> py_error + 'n selection" where
  "getitem cols rows label =
     (case positions cols label of
        [] \<Rightarrow> Inl KeyError
      | [j] \<Rightarrow> Inr (Series (column rows j))
      | js \<Rightarrow> Inr (Frame (map (column rows) js)))"

definition dropna :: "'n cell list \<Rightarrow> 'n pyval list" where
  "dropna cs = map the (filter (\<lambda>c. c \<noteq> None) cs)"

text \<open>\<open>.dropna().tolist()\<close>: a frame has no \<open>tolist\<close>.\<close>

definition dropna_tolist :: "'n selection \<Rightarrow> py_error + 'n pyval list" where
  "dropna_tolist sel = (case sel of Series cs \<Rightarrow> Inr (dropna cs) | Frame _ \<Rightarrow> Inl AttributeError)"

subsection \<open>The aggregation dictionary\<close>

text \<open>A dict keeps its keys in insertion order, so it is an association list with one
  entry per key.\<close>

type_synonym 'n scores_dict = "('n pyval \<times> 'n pyval list) list"

definition has_key :: "'n scores_dict \<Rightarrow> 'n pyval \<Rightarrow> bool" where
  "has_key d k = (k \<in> set (map fst d))"

definition extend_entry :: "'n scores_dict \<Rightarrow> 'n pyval \<Rightarrow> 'n pyval list \<Rightarrow> 'n scores_dict" where
  "extend_entry d k xs = map (\<lambda>(k', v). if k' = k then (k', v @ xs) else (k', v)) d"

text \<open>Lines 64 to 66: create the empty list on first encounter, then extend it.\<close>

definition add_scores :: "'n scores_dict \<Rightarrow> 'n pyval \<Rightarrow> 'n pyval list \<Rightarrow> 'n scores_dict" where
  "add_scores d k xs = extend_entry (if has_key d k then d else d @ [(k, [])]) k xs"

text \<open>The loop over the teachers of one sheet (lines 57 to 66).\<close>

fun teachers_loop ::
  "'n pyval list \<Rightarrow> 'n dataframe \<Rightarrow> 'n pyval list \<Rightarrow> 'n scores_dict \<Rightarrow> py_error + 'n scores_dict" where
  "teachers_loop cols rows [] d = Inr d"
| "teachers_loop cols rows (teacher_name # rest) d =
     (case getitem cols rows teacher_name of
        Inl e \<Rightarrow> Inl e
      | Inr sel \<Rightarrow>
          (case dropna_tolist sel of
             Inl e \<Rightarrow> Inl e
           | Inr current_teacher_scores \<Rightarrow>
               teachers_loop cols rows rest (add_scores d teacher_name current_teacher_scores)))"

text \<open>The loop over the sheets (lines 31 to 66), with the console lines it prints.\<close>

fun sheets_loop ::
  "'n workbook \<Rightarrow> 'n scores_dict \<Rightarrow> msg list \<Rightarrow> (py_error + 'n scores_dict) \<times> msg list" where
  "sheets_loop [] d out = (Inr d, out)"
| "sheets_loop ((sheet_name, df) # sheets) d out =
     (if df_empty df then sheets_loop sheets d (out @ [EmptySheetWarning sheet_name])
      else
        (let cleaned = cleaned_teacher_names (hd df);
             scores_only_df = tl df
         in case teachers_loop cleaned scores_only_df cleaned d of
              Inl e \<Rightarrow> (Inl e, out)
            | Inr d' \<Rightarrow> sheets_loop sheets d' out))"

subsection \<open>Means, order, ranks\<close>

text \<open>\<open>sum(scores)\<close> starts from 0 and adds from the left, one machine addition per
  score; a number plus a text raises.\<close>

fun py_sum :: "'n arith \<Rightarrow> 'n pyval list \<Rightarrow> 'n \<Rightarrow> py_error + 'n" where
  "py_sum A [] acc = Inr acc"
| "py_sum A (Number x # rest) acc = py_sum A rest (py_add A acc x)"
| "py_sum A (Text s # rest) acc = Inl TypeError"

text \<open>Lines 75 to 79: \<open>sum(scores) / len(scores)\<close>, or the literal \<open>0\<close> for no score.\<close>

definition average :: "'n arith \<Rightarrow> 'n pyval list \<Rightarrow> py_error + 'n" where
  "average A scores =
     (if scores \<noteq> [] then
        (case py_sum A scores (py_zero A) of
           Inl e \<Rightarrow> Inl e
         | Inr s \<Rightarrow> Inr (py_truediv A s (length scores)))
      else Inr (py_zero A))"

text \<open>Lines 73 to 79, appending one row per dictionary entry.\<close>

fun averages_loop ::
  "'n arith \<Rightarrow> 'n scores_dict \<Rightarrow> ('n pyval \<times> 'n) list \<Rightarrow> py_error + ('n pyval \<times> 'n) list" where
  "averages_loop A [] acc = Inr acc"
| "averages_loop A ((t, scores) # rest) acc =
     (case average A scores of
        Inl e \<Rightarrow> Inl e
      | Inr a \<Rightarrow> averages_loop A rest (acc @ [(t, a)]))"

text \<open>pandas' default sort kind does not fix the order of rows with equal keys: it
  depends on the library's version and on the machine. The parameter \<open>tie\<close> stands for
  that choice. It ranks the positions of the rows, and the rows are taken in that order
  before they are sorted, so every arrangement of the rows can come first; whatever
  \<open>tie\<close> is, the outcome holds the same rows.\<close>

definition tie_arrange :: "(nat \<Rightarrow> nat) \<Rightarrow> 'a list \<Rightarrow> 'a list" where
  "tie_arrange tie rows = map snd (sort_key (\<lambda>(i, r). tie i) (enumerate 0 rows))"

text \<open>\<open>sort_values(by=mean, ascending=False)\<close>: the rows by descending mean, those of
  equal mean in the order that \<open>tie\<close> gives.\<close>

definition sort_values ::
  "(nat \<Rightarrow> nat) \<Rightarrow> ('n pyval \<times> 'n :: linorder) list \<Rightarrow> ('n pyval \<times> 'n) list" where
  "sort_values tie rows = rev (sort_key snd (tie_arrange tie rows))"

text \<open>\<open>reset_index(drop=True)\<close> and the rank column \<open>index + 1\<close>.\<close>

definition add_rank :: "('n pyval \<times> 'n) list \<Rightarrow> 'n ranking_row list" where
  "add_rank rows =
     map (\<lambda>(i, (t, m)). \<lparr>teacher = t, mean_score = m, rank = i + 1\<rparr>) (enumerate 0 rows)"

subsection \<open>The function\<close>

text \<open>The two pandas calls that touch files are parameters: \<open>read_excel\<close> gives the
  outcome of reading a path, \<open>to_excel\<close> gives \<open>None\<close> when the table was written to
  the path and the exception's text otherwise. The arithmetic \<open>A\<close> and the order of
  ties \<open>tie\<close> are the machine's. Both paths are arguments; the default of the output
  path is left out.\<close>

definition create_teacher_ranking_excel ::
  "'n arith \<Rightarrow> (nat \<Rightarrow> nat) \<Rightarrow>
   (string \<Rightarrow> 'n read_outcome) \<Rightarrow> (string \<Rightarrow> 'n ranking_row list \<Rightarrow> string option) \<Rightarrow>
   string \<Rightarrow> string \<Rightarrow> ('n :: linorder) outcome" where
  "create_teacher_ranking_excel A tie read_excel to_excel input_excel_path output_excel_path =
     (case read_excel input_excel_path of
        FileNotFound \<Rightarrow>
          \<lparr>returned = Inr False, printed = [InputNotFound input_excel_path], written = None\<rparr>
      | ReadFailed e \<Rightarrow>
          \<lparr>returned = Inr False, printed = [InputReadError e], written = None\<rparr>
      | Loaded all_sheets_data \<Rightarrow>
          (case sheets_loop all_sheets_data [] [] of
             (Inl e, out) \<Rightarrow> \<lparr>returned = Inl e, printed = out, written = None\<rparr>
           | (Inr all_teachers_scores, out) \<Rightarrow>
               if all_teachers_scores = [] then
                 \<lparr>returned = Inr False, printed = out @ [NoDataFound], written = None\<rparr>
               else
                 (case averages_loop A all_teachers_scores [] of
                    Inl e \<Rightarrow> \<lparr>returned = Inl e, printed = out, written = None\<rparr>
                  | Inr teacher_avg_scores \<Rightarrow>
                      (let rating_df = add_rank (sort_values tie teacher_avg_scores)
                       in case to_excel output_excel_path rating_df of
                            None \<Rightarrow>
                              \<lparr>returned = Inr True,
                               printed = out @ [RankingSaved output_excel_path],
                               written = Some (output_excel_path, rating_df)\<rparr>
                          | Some e \<Rightarrow>
                              \<lparr>returned = Inr False,
                               printed = out @ [OutputWriteError e],
                               written = None\<rparr>))))"

subsection \<open>Notions used to state the properties\<close>

text \<open>The list stored under a key of the dictionary; a key that is absent has none.\<close>

definition scores_of :: "'n scores_dict \<Rightarrow> 'n pyval \<Rightarrow> 'n pyval list" where
  "scores_of d k = (case map_of d k of None \<Rightarrow> [] | Some v \<Rightarrow> v)"

text \<open>The non-empty cells, in row order, of the columns labelled \<open>k\<close>, columns from left
  to right.\<close>

definition label_scores :: "'n pyval list \<Rightarrow> 'n dataframe \<Rightarrow> 'n pyval \<Rightarrow> 'n pyval list" where
  "label_scores cols rows k = concat (map (\<lambda>j. dropna (column rows j)) (positions cols k))"

text \<open>The teacher keys of a sheet: the cleaned names of its row 0, if it has one.\<close>

definition sheet_names :: "'n dataframe \<Rightarrow> 'n pyval list" where
  "sheet_names df = (case df of [] \<Rightarrow> [] | row0 # rows \<Rightarrow> cleaned_teacher_names row0)"

text \<open>What one sheet contributes under the name \<open>k\<close>: the scores below row 0 in the
  columns of that name.\<close>

definition sheet_scores :: "'n pyval \<Rightarrow> 'n dataframe \<Rightarrow> 'n pyval list" where
  "sheet_scores k df =
     (case df of [] \<Rightarrow> [] | row0 # rows \<Rightarrow> label_scores (cleaned_teacher_names row0) rows k)"

text \<open>The order in which names are first met: the order of the dictionary's keys.\<close>

definition note_name :: "'n pyval \<Rightarrow> 'n pyval list \<Rightarrow> 'n pyval list" where
  "note_name k ks = (if k \<in> set ks then ks else ks @ [k])"

definition first_encounters :: "'n pyval list \<Rightarrow> 'n pyval list" where
  "first_encounters names = fold note_name names []"

text \<open>An arithmetic to run examples with: exact, on the reals. On the small whole
  numbers of the examples the machine's operations give the same values.\<close>

definition exact_arith :: "real arith" where
  "exact_arith = \<lparr>py_zero = 0, py_add = (+), py_truediv = (\<lambda>s n. s / real n)\<rparr>"

section \<open>Auxiliary facts\<close>

subsection \<open>Names\<close>

lemma digit_char_inj: "a < 10 \<Longrightarrow> b < 10 \<Longrightarrow> digit_char a = digit_char b \<Longrightarrow> a = b"
proof -
  assume a: "a < 10" and b: "b < 10" and e: "digit_char a = digit_char b"
  have "distinct ''0123456789''" by simp
  moreover have "a < length ''0123456789''" "b < length ''0123456789''" using a b by simp_all
  ultimately show "a = b" using e unfolding digit_char_def by (simp only: nth_eq_iff_index_eq)
qed

lemma str_nat_not_Nil: "str_nat n \<noteq> []"
  by (subst str_nat.simps) simp

lemma str_nat_inj: "str_nat a = str_nat b \<Longrightarrow> a = b"
proof (induction a arbitrary: b rule: str_nat.induct)
  case (1 n)
  show ?case
  proof (cases "n < 10")
    case True
    have n: "str_nat n = [digit_char n]" using True by (subst str_nat.simps) simp
    show ?thesis
    proof (cases "b < 10")
      case b: True
      have "str_nat b = [digit_char b]" using b by (subst str_nat.simps) simp
      with n "1.prems" True b show ?thesis by (simp add: digit_char_inj)
    next
      case b: False
      have "str_nat b = str_nat (b div 10) @ [digit_char (b mod 10)]"
        using b by (subst str_nat.simps) simp
      with n "1.prems" show ?thesis using str_nat_not_Nil [of "b div 10"] by auto
    qed
  next
    case False
    have n: "str_nat n = str_nat (n div 10) @ [digit_char (n mod 10)]"
      using False by (subst str_nat.simps) simp
    show ?thesis
    proof (cases "b < 10")
      case b: True
      have "str_nat b = [digit_char b]" using b by (subst str_nat.simps) simp
      with n "1.prems" show ?thesis using str_nat_not_Nil [of "n div 10"] by auto
    next
      case b: False
      have "str_nat b = str_nat (b div 10) @ [digit_char (b mod 10)]"
        using b by (subst str_nat.simps) simp
      with n "1.prems" have e: "str_nat (n div 10) = str_nat (b div 10)"
        and d: "digit_char (n mod 10) = digit_char (b mod 10)" by simp_all
      from "1.IH" [OF False e] have q: "n div 10 = b div 10" .
      from d have r: "n mod 10 = b mod 10" by (simp add: digit_char_inj)
      from q r show ?thesis by (metis div_mult_mod_eq)
    qed
  qed
qed

lemma unnamed_teacher_inj: "unnamed_teacher i = unnamed_teacher j \<Longrightarrow> i = j"
  by (simp add: unnamed_teacher_def str_nat_inj)

lemma length_cleaned [simp]: "length (cleaned_teacher_names names) = length names"
  by (simp add: cleaned_teacher_names_def)

lemma nth_cleaned: "i < length names \<Longrightarrow> cleaned_teacher_names names ! i = clean_name i (names ! i)"
  by (simp add: cleaned_teacher_names_def nth_enumerate_eq)

subsection \<open>Selecting a column by its label\<close>

lemma filter_eq_upt: "filter (\<lambda>i. i = j) [0..<n] = (if j < n then [j] else [])"
  by (induction n) auto

lemma positions_distinct:
  assumes "distinct cols" "j < length cols"
  shows "positions cols (cols ! j) = [j]"
proof -
  have "filter (\<lambda>i. cols ! i = cols ! j) [0..<length cols] = filter (\<lambda>i. i = j) [0..<length cols]"
    using assms by (intro filter_cong) (auto simp: nth_eq_iff_index_eq)
  with assms show ?thesis by (simp add: positions_def filter_eq_upt)
qed

lemma set_positions: "set (positions cols k) = {j. j < length cols \<and> cols ! j = k}"
  by (auto simp: positions_def)

lemma positions_Nil: "k \<notin> set cols \<Longrightarrow> positions cols k = []"
  by (auto simp: positions_def filter_empty_conv)

lemma positions_not_Nil: "k \<in> set cols \<Longrightarrow> positions cols k \<noteq> []"
  by (auto simp: positions_def filter_empty_conv in_set_conv_nth)

lemma positions_twice:
  assumes "i < length cols" "j < length cols" "i \<noteq> j" "cols ! i = k" "cols ! j = k"
  shows "\<exists>a b rest. positions cols k = a # b # rest"
proof -
  have ij: "i \<in> set (positions cols k)" "j \<in> set (positions cols k)"
    using assms by (simp_all add: set_positions)
  show ?thesis
  proof (cases "positions cols k")
    case Nil
    with ij show ?thesis by simp
  next
    case (Cons a as)
    show ?thesis
    proof (cases as)
      case Nil
      with Cons ij assms(3) show ?thesis by simp
    next
      case (Cons b rest)
      with \<open>positions cols k = a # as\<close> show ?thesis by blast
    qed
  qed
qed

lemma getitem_Series:
  "getitem cols rows k = Inr (Series cs) \<Longrightarrow> \<exists>j. positions cols k = [j] \<and> cs = column rows j"
  by (auto simp: getitem_def split: list.splits)

lemma select_Inr:
  assumes "getitem cols rows k = Inr sel" "dropna_tolist sel = Inr xs"
  shows "\<exists>j. positions cols k = [j] \<and> xs = dropna (column rows j)"
proof (cases sel)
  case (Series cs)
  with assms getitem_Series [of cols rows k cs] show ?thesis
    by (auto simp: dropna_tolist_def)
next
  case (Frame fs)
  with assms show ?thesis by (simp add: dropna_tolist_def)
qed

lemma select_unique:
  "positions cols k = [j] \<Longrightarrow>
   getitem cols rows k = Inr (Series (column rows j)) \<and>
   dropna_tolist (Series (column rows j)) = Inr (dropna (column rows j))"
  by (simp add: getitem_def dropna_tolist_def)

lemma select_twice:
  "positions cols k = a # b # rest \<Longrightarrow>
   \<exists>fs. getitem cols rows k = Inr (Frame fs) \<and> dropna_tolist (Frame fs) = Inl AttributeError"
  by (simp add: getitem_def dropna_tolist_def)

subsection \<open>Adding scores to the dictionary\<close>

lemma has_key_map_of: "has_key d k \<longleftrightarrow> map_of d k \<noteq> None"
  by (simp add: has_key_def map_of_eq_None_iff)

lemma map_of_extend:
  "map_of (extend_entry d k xs) k' =
     (if k' = k then map_option (\<lambda>v. v @ xs) (map_of d k) else map_of d k')"
  by (induction d) (auto simp: extend_entry_def)

lemma scores_of_extend:
  "scores_of (extend_entry d k xs) k' = (if k' = k \<and> has_key d k then scores_of d k' @ xs else scores_of d k')"
  by (auto simp: scores_of_def map_of_extend has_key_map_of split: option.splits)

lemma scores_of_append:
  "scores_of (d @ [(k, v)]) k' = (if has_key d k' then scores_of d k' else if k' = k then v else [])"
  by (auto simp: scores_of_def has_key_map_of map_of_append split: option.splits)

lemma scores_of_no_key: "\<not> has_key d k \<Longrightarrow> scores_of d k = []"
  by (simp add: scores_of_def has_key_map_of)

lemma keys_extend: "map fst (extend_entry d k xs) = map fst d"
  by (induction d) (auto simp: extend_entry_def)

lemma keys_add_scores:
  "map fst (add_scores d k xs) = (if has_key d k then map fst d else map fst d @ [k])"
  by (simp add: add_scores_def keys_extend)

lemma has_key_append: "has_key (d @ [(k, v)]) k' = (has_key d k' \<or> k' = k)"
  by (auto simp: has_key_def)

lemma scores_of_add_scores:
  "scores_of (add_scores d k xs) k' = scores_of d k' @ (if k' = k then xs else [])"
  by (auto simp: add_scores_def scores_of_extend scores_of_append has_key_append scores_of_no_key)

lemma distinct_add_scores:
  "distinct (map fst d) \<Longrightarrow> distinct (map fst (add_scores d k xs))"
  by (auto simp: keys_add_scores has_key_def)


subsection \<open>The two loops of the aggregation\<close>

lemma label_scores_single: "positions cols k = [j] \<Longrightarrow> label_scores cols rows k = dropna (column rows j)"
  by (simp add: label_scores_def)

lemma label_scores_absent: "k \<notin> set cols \<Longrightarrow> label_scores cols rows k = []"
  by (simp add: label_scores_def positions_Nil)

lemma single_positions_distinct:
  assumes "\<forall>k \<in> set cols. \<exists>j. positions cols k = [j]"
  shows "distinct cols"
proof (rule ccontr)
  assume "\<not> distinct cols"
  then obtain i j where ij: "i < length cols" "j < length cols" "i \<noteq> j" "cols ! i = cols ! j"
    by (auto simp: distinct_conv_nth)
  from positions_twice [OF ij(1) ij(2) ij(3) ij(4) refl]
  obtain a b rest where "positions cols (cols ! j) = a # b # rest" by blast
  moreover from ij(2) have "cols ! j \<in> set cols" by simp
  with assms obtain j' where "positions cols (cols ! j) = [j']" by blast
  ultimately show False by simp
qed

lemma concat_if_distinct:
  "distinct xs \<Longrightarrow> concat (map (\<lambda>x. if x = k then L else []) xs) = (if k \<in> set xs then L else [])"
  by (induction xs) auto

lemma teachers_loop_Inr:
  "teachers_loop cols rows names d = Inr d' \<Longrightarrow>
   (\<forall>k. scores_of d' k =
        scores_of d k @ concat (map (\<lambda>name. if name = k then label_scores cols rows k else []) names)) \<and>
   set (map fst d') = set (map fst d) \<union> set names \<and>
   (distinct (map fst d) \<longrightarrow> distinct (map fst d')) \<and>
   (\<forall>name \<in> set names. \<exists>j. positions cols name = [j])"
proof (induction names arbitrary: d)
  case Nil
  then show ?case by simp
next
  case (Cons name rest)
  from Cons.prems obtain sel xs where sel: "getitem cols rows name = Inr sel"
    and xs: "dropna_tolist sel = Inr xs"
    and loop: "teachers_loop cols rows rest (add_scores d name xs) = Inr d'"
    by (auto split: sum.splits)
  from select_Inr [OF sel xs] obtain j where j: "positions cols name = [j]"
    and xs': "xs = dropna (column rows j)" by blast
  then have ls: "label_scores cols rows name = xs" by (simp add: label_scores_single)
  note IH = Cons.IH [OF loop]
  have "\<forall>k. scores_of d' k =
        scores_of d k @ concat (map (\<lambda>name. if name = k then label_scores cols rows k else []) (name # rest))"
    using IH ls by (auto simp: scores_of_add_scores)
  moreover have "set (map fst d') = set (map fst d) \<union> set (name # rest)"
    using IH by (auto simp: keys_add_scores has_key_def)
  moreover have "distinct (map fst d) \<longrightarrow> distinct (map fst d')"
    using IH distinct_add_scores by blast
  moreover have "\<forall>n \<in> set (name # rest). \<exists>j. positions cols n = [j]"
    using IH j by auto
  ultimately show ?case by blast
qed

lemma teachers_loop_Inl:
  "teachers_loop cols rows names d = Inl e \<Longrightarrow> set names \<subseteq> set cols \<Longrightarrow>
   e = AttributeError \<and> \<not> distinct cols"
proof (induction names arbitrary: d)
  case Nil
  then show ?case by simp
next
  case (Cons name rest)
  from Cons.prems(2) have mem: "name \<in> set cols" and sub: "set rest \<subseteq> set cols" by simp_all
  show ?case
  proof (cases "positions cols name")
    case Nil
    with positions_not_Nil [OF mem] show ?thesis by simp
  next
    case c1: (Cons a as)
    show ?thesis
    proof (cases as)
      case Nil
      with c1 have p: "positions cols name = [a]" by simp
      from select_unique [OF p, of rows] Cons.prems(1)
      have "teachers_loop cols rows rest (add_scores d name (dropna (column rows a))) = Inl e"
        by simp
      from Cons.IH [OF this sub] show ?thesis .
    next
      case (Cons b bs)
      with c1 have p: "positions cols name = a # b # bs" by simp
      from select_twice [OF p, of rows] Cons.prems(1) have e: "e = AttributeError"
        by auto
      have "\<not> distinct cols"
      proof
        assume dc: "distinct cols"
        from mem obtain j where "j < length cols" "cols ! j = name"
          by (auto simp: in_set_conv_nth)
        with positions_distinct [OF dc, of j] p show False by simp
      qed
      with e show ?thesis by simp
    qed
  qed
qed

lemma sheet_loop_distinct_iff:
  "(\<exists>d'. teachers_loop cols rows cols d = Inr d') \<longleftrightarrow> distinct cols"
proof
  assume "\<exists>d'. teachers_loop cols rows cols d = Inr d'"
  then obtain d' where "teachers_loop cols rows cols d = Inr d'" ..
  from teachers_loop_Inr [OF this] show "distinct cols"
    by (simp add: single_positions_distinct)
next
  assume dc: "distinct cols"
  show "\<exists>d'. teachers_loop cols rows cols d = Inr d'"
  proof (cases "teachers_loop cols rows cols d")
    case (Inl e)
    from teachers_loop_Inl [OF this] dc show ?thesis by simp
  next
    case (Inr d')
    then show ?thesis by blast
  qed
qed

lemma sheet_loop_scores:
  assumes "teachers_loop cols rows cols d = Inr d'"
  shows "scores_of d' k = scores_of d k @ label_scores cols rows k"
proof -
  from assms sheet_loop_distinct_iff [of cols rows d] have dc: "distinct cols" by blast
  from teachers_loop_Inr [OF assms]
  have "scores_of d' k =
        scores_of d k @ concat (map (\<lambda>name. if name = k then label_scores cols rows k else []) cols)"
    by blast
  with dc show ?thesis by (simp add: concat_if_distinct label_scores_absent)
qed

lemma df_empty_names: "df_empty df \<Longrightarrow> sheet_names df = []"
  by (auto simp: df_empty_def sheet_names_def cleaned_teacher_names_def split: list.splits)

lemma df_empty_scores: "df_empty df \<Longrightarrow> sheet_scores k df = []"
  by (auto simp: df_empty_def sheet_scores_def cleaned_teacher_names_def label_scores_def positions_def
      split: list.splits)

lemma not_empty_names: "\<not> df_empty df \<Longrightarrow> sheet_names df = cleaned_teacher_names (hd df)"
  by (auto simp: df_empty_def sheet_names_def split: list.splits)

lemma not_empty_scores:
  "\<not> df_empty df \<Longrightarrow> sheet_scores k df = label_scores (cleaned_teacher_names (hd df)) (tl df) k"
  by (auto simp: df_empty_def sheet_scores_def split: list.splits)

lemma sheets_loop_Inr:
  "sheets_loop wb d out = (Inr d', out') \<Longrightarrow>
   (\<forall>k. scores_of d' k = scores_of d k @ concat (map (\<lambda>(n, df). sheet_scores k df) wb)) \<and>
   set (map fst d') = set (map fst d) \<union> (\<Union>(n, df) \<in> set wb. set (sheet_names df)) \<and>
   (distinct (map fst d) \<longrightarrow> distinct (map fst d')) \<and>
   (\<forall>(n, df) \<in> set wb. distinct (sheet_names df))"
proof (induction wb d out rule: sheets_loop.induct)
  case (1 d out)
  then show ?case by simp
next
  case (2 sheet_name df sheets d out)
  show ?case
  proof (cases "df_empty df")
    case True
    with "2.prems" have "sheets_loop sheets d (out @ [EmptySheetWarning sheet_name]) = (Inr d', out')"
      by simp
    from "2.IH"(1) [OF True this] True show ?thesis
      by (simp add: df_empty_names df_empty_scores)
  next
    case False
    let ?cols = "cleaned_teacher_names (hd df)"
    from "2.prems" False obtain d1 where d1: "teachers_loop ?cols (tl df) ?cols d = Inr d1"
      and rest: "sheets_loop sheets d1 out = (Inr d', out')"
      by (auto simp: Let_def split: sum.splits)
    note IH = "2.IH"(2) [OF False refl refl d1 rest]
    note T = teachers_loop_Inr [OF d1]
    from d1 sheet_loop_distinct_iff [of ?cols "tl df" d] have dc: "distinct ?cols" by blast
    have "\<forall>k. scores_of d' k = scores_of d k @ concat (map (\<lambda>(n, df). sheet_scores k df) ((sheet_name, df) # sheets))"
      using IH sheet_loop_scores [OF d1] False by (simp add: not_empty_scores)
    moreover have "set (map fst d') = set (map fst d) \<union> (\<Union>(n, df) \<in> set ((sheet_name, df) # sheets). set (sheet_names df))"
      using IH T False by (auto simp: not_empty_names)
    moreover have "distinct (map fst d) \<longrightarrow> distinct (map fst d')"
      using IH T by blast
    moreover have "\<forall>(n, df) \<in> set ((sheet_name, df) # sheets). distinct (sheet_names df)"
      using IH dc False by (simp add: not_empty_names)
    ultimately show ?thesis by blast
  qed
qed

lemma sheets_loop_Inl:
  "sheets_loop wb d out = (Inl e, out') \<Longrightarrow>
   e = AttributeError \<and> (\<exists>(n, df) \<in> set wb. \<not> distinct (sheet_names df))"
proof (induction wb d out rule: sheets_loop.induct)
  case (1 d out)
  then show ?case by simp
next
  case (2 sheet_name df sheets d out)
  show ?case
  proof (cases "df_empty df")
    case True
    with "2.prems" have "sheets_loop sheets d (out @ [EmptySheetWarning sheet_name]) = (Inl e, out')"
      by simp
    from "2.IH"(1) [OF True this] show ?thesis by auto
  next
    case False
    let ?cols = "cleaned_teacher_names (hd df)"
    show ?thesis
    proof (cases "teachers_loop ?cols (tl df) ?cols d")
      case (Inl e')
      with "2.prems" False have "e' = e" by (simp add: Let_def)
      with teachers_loop_Inl [OF Inl] False show ?thesis by (simp add: not_empty_names)
    next
      case (Inr d1)
      with "2.prems" False have "sheets_loop sheets d1 out = (Inl e, out')" by (simp add: Let_def)
      from "2.IH"(2) [OF False refl refl Inr this] show ?thesis by auto
    qed
  qed
qed


lemma sheets_loop_duplicate:
  assumes "(n, df) \<in> set wb" "\<not> distinct (sheet_names df)"
  shows "\<exists>out'. sheets_loop wb d out = (Inl AttributeError, out')"
proof (cases "sheets_loop wb d out")
  case (Pair r out')
  show ?thesis
  proof (cases r)
    case (Inl e)
    with Pair sheets_loop_Inl [of wb d out e out'] show ?thesis by auto
  next
    case (Inr d')
    with Pair sheets_loop_Inr [of wb d out d' out'] assms show ?thesis by auto
  qed
qed

subsection \<open>Means, order and ranks\<close>







lemma tie_arrange_mset: "mset (tie_arrange tie rows) = mset rows"
proof -
  have "mset (map snd (sort_key (\<lambda>(i, r). tie i) (enumerate 0 rows))) =
        mset (map snd (enumerate 0 rows))"
    by (simp only: mset_map mset_sort)
  then show ?thesis by (simp add: tie_arrange_def)
qed

lemma sort_values_mset: "mset (sort_values tie rows) = mset rows"
  by (simp add: sort_values_def tie_arrange_mset)


lemma sort_values_length: "length (sort_values tie rows) = length rows"
  using sort_values_mset [of tie rows] by (metis size_mset)

lemma sort_values_descending:
  assumes "i \<le> j" and "j < length rows"
  shows "snd (sort_values tie rows ! j) \<le> snd (sort_values tie rows ! i)"
proof -
  let ?asc = "sort_key snd (tie_arrange tie rows)"
  have len: "length ?asc = length rows"
    using sort_values_length [of tie rows] by (simp add: sort_values_def)
  have sorted: "sorted (map snd ?asc)" by (rule sorted_sort_key)
  let ?n = "length rows"
  from assms len have i': "?n - Suc j \<le> ?n - Suc i" and j': "?n - Suc i < length (map snd ?asc)"
    by simp_all
  from sorted_nth_mono [OF sorted i' j'] assms len
  have "snd (?asc ! (?n - Suc j)) \<le> snd (?asc ! (?n - Suc i))" by simp
  moreover have "sort_values tie rows ! j = ?asc ! (?n - Suc j)"
    using assms len by (simp add: sort_values_def rev_nth)
  moreover have "sort_values tie rows ! i = ?asc ! (?n - Suc i)"
    using assms len by (simp add: sort_values_def rev_nth)
  ultimately show ?thesis by simp
qed

text \<open>Rows of equal mean come out in either order, as \<open>tie\<close> says: four rows with the
  means 1, 1, 2, 2, once with the later row first among equals and once with the
  earlier row first.\<close>

lemma sort_values_ties:
  "sort_values (\<lambda>i. i) [(Text ''a'', 1 :: real), (Text ''b'', 1), (Text ''c'', 2), (Text ''d'', 2)] =
     [(Text ''d'', 2), (Text ''c'', 2), (Text ''b'', 1), (Text ''a'', 1)]"
  "sort_values (\<lambda>i. 3 - i) [(Text ''a'', 1 :: real), (Text ''b'', 1), (Text ''c'', 2), (Text ''d'', 2)] =
     [(Text ''c'', 2), (Text ''d'', 2), (Text ''a'', 1), (Text ''b'', 1)]"
  by code_simp+

lemma add_rank_length: "length (add_rank rows) = length rows"
  by (simp add: add_rank_def)

lemma add_rank_nth:
  "i < length rows \<Longrightarrow>
   add_rank rows ! i = \<lparr>teacher = fst (rows ! i), mean_score = snd (rows ! i), rank = i + 1\<rparr>"
  by (simp add: add_rank_def nth_enumerate_eq split: prod.splits)

lemma add_rank_ranks: "map rank (add_rank rows) = [1..<Suc (length rows)]"
  by (rule nth_equalityI) (simp_all add: add_rank_length add_rank_nth del: upt_Suc)


subsection \<open>The outcome of a call\<close>

lemma written_SomeD:
  assumes "written (create_teacher_ranking_excel A tie read_excel to_excel inp outp) = Some (p, t)"
  shows "\<exists>wb d out avgs. read_excel inp = Loaded wb \<and> sheets_loop wb [] [] = (Inr d, out) \<and> d \<noteq> [] \<and>
           averages_loop A d [] = Inr avgs \<and> t = add_rank (sort_values tie avgs) \<and> p = outp \<and>
           to_excel outp t = None"
  using assms
  by (auto simp: create_teacher_ranking_excel_def Let_def
      split: read_outcome.splits prod.splits sum.splits if_splits option.splits)

lemma returned_TrueD:
  assumes "returned (create_teacher_ranking_excel A tie read_excel to_excel inp outp) = Inr True"
  shows "\<exists>t. written (create_teacher_ranking_excel A tie read_excel to_excel inp outp) = Some (outp, t)"
  using assms
  by (auto simp: create_teacher_ranking_excel_def Let_def
      split: read_outcome.splits prod.splits sum.splits if_splits option.splits)



subsection \<open>What the dictionary holds\<close>

lemma map_of_scores_of:
  "k \<in> set (map fst d) \<Longrightarrow> map_of d k = Some (scores_of d k)"
  by (auto simp: scores_of_def map_of_eq_None_iff split: option.splits)

lemma dropna_present: "map Some (dropna cs) = filter (\<lambda>c. c \<noteq> None) cs"
  by (induction cs) (auto simp: dropna_def)

lemma sheet_scores_column:
  assumes "distinct (cleaned_teacher_names row0)" "j < length row0"
  shows "sheet_scores (cleaned_teacher_names row0 ! j) (row0 # rows) = dropna (column rows j)"
  using assms positions_distinct [of "cleaned_teacher_names row0" j]
  by (simp add: sheet_scores_def label_scores_def)







lemma run_raises:
  assumes "read_excel inp = Loaded wb" "sheets_loop wb [] [] = (Inl e, out)"
  shows "create_teacher_ranking_excel A tie read_excel to_excel inp outp =
           \<lparr>returned = Inl e, printed = out, written = None\<rparr>"
  using assms by (simp add: create_teacher_ranking_excel_def)

lemma keeps_name_clean: "keeps_name c \<Longrightarrow> Some (clean_name i c) = c"
  by (cases c) (auto simp: clean_name_def)

lemma keys_add_scores_note: "map fst (add_scores d k xs) = note_name k (map fst d)"
  by (simp add: keys_add_scores note_name_def has_key_def)

lemma teachers_loop_keys:
  "teachers_loop cols rows names d = Inr d' \<Longrightarrow> map fst d' = fold note_name names (map fst d)"
proof (induction names arbitrary: d)
  case Nil
  then show ?case by simp
next
  case (Cons name rest)
  from Cons.prems obtain xs where "teachers_loop cols rows rest (add_scores d name xs) = Inr d'"
    by (auto split: sum.splits)
  from Cons.IH [OF this] show ?case by (simp add: keys_add_scores_note)
qed

lemma sheets_loop_keys:
  "sheets_loop wb d out = (Inr d', out') \<Longrightarrow>
   map fst d' = fold note_name (concat (map (\<lambda>(n, df). sheet_names df) wb)) (map fst d)"
proof (induction wb d out rule: sheets_loop.induct)
  case (1 d out)
  then show ?case by simp
next
  case (2 sheet_name df sheets d out)
  show ?case
  proof (cases "df_empty df")
    case True
    with "2.prems" have "sheets_loop sheets d (out @ [EmptySheetWarning sheet_name]) = (Inr d', out')"
      by simp
    from "2.IH"(1) [OF True this] True show ?thesis by (simp add: df_empty_names)
  next
    case False
    let ?cols = "cleaned_teacher_names (hd df)"
    from "2.prems" False obtain d1 where d1: "teachers_loop ?cols (tl df) ?cols d = Inr d1"
      and rest: "sheets_loop sheets d1 out = (Inr d', out')"
      by (auto simp: Let_def split: sum.splits)
    from "2.IH"(2) [OF False refl refl d1 rest] teachers_loop_keys [OF d1] False
    show ?thesis by (simp add: not_empty_names)
  qed
qed

lemma sheets_loop_all_empty:
  "\<forall>(n, df) \<in> set wb. df_empty df \<Longrightarrow>
   sheets_loop wb d out = (Inr d, out @ map (\<lambda>(n, df). EmptySheetWarning n) wb)"
  by (induction wb d out rule: sheets_loop.induct) auto

lemma names_not_empty:
  assumes "\<not> df_empty df"
  shows "sheet_names df \<noteq> []"
proof (cases df)
  case Nil
  with assms show ?thesis by (simp add: df_empty_def)
next
  case (Cons row0 rows)
  with assms have "length (cleaned_teacher_names row0) \<noteq> 0"
    by (simp add: df_empty_def)
  then have "cleaned_teacher_names row0 \<noteq> []" by (simp only: length_0_conv not_False_eq_True)
  with Cons show ?thesis by (simp add: sheet_names_def)
qed

lemma no_keys_all_empty:
  assumes "sheets_loop wb [] [] = (Inr [], out)"
  shows "\<forall>(n, df) \<in> set wb. df_empty df"
proof -
  from sheets_loop_Inr [OF assms] have "(\<Union>(n, df) \<in> set wb. set (sheet_names df)) = {}" by simp
  then have "\<forall>(n, df) \<in> set wb. sheet_names df = []" by auto
  then show ?thesis using names_not_empty by blast
qed


section \<open>Properties\<close>

subsection \<open>Reading the input fails\<close>

text \<open>
  C7. When \<open>read_excel\<close> raises, for a path that does not resolve or for any other
  reason, the function returns False, prints the one error line, and writes no file;
  no sheet is processed.
\<close>

theorem read_failure_aborts:
  "read_excel inp = FileNotFound \<or> (\<exists>e. read_excel inp = ReadFailed e) \<Longrightarrow>
   returned (create_teacher_ranking_excel A tie read_excel to_excel inp outp) = Inr False \<and>
   written (create_teacher_ranking_excel A tie read_excel to_excel inp outp) = None \<and>
   printed (create_teacher_ranking_excel A tie read_excel to_excel inp outp) =
     (case read_excel inp of FileNotFound \<Rightarrow> [InputNotFound inp] | ReadFailed e \<Rightarrow> [InputReadError e] | Loaded w \<Rightarrow> [])"
  by (auto simp: create_teacher_ranking_excel_def)

theorem read_failure_aborts_witness:
  "returned (create_teacher_ranking_excel exact_arith (\<lambda>i. i) (\<lambda>p. FileNotFound) (\<lambda>p t. None) ''in.xlsx'' ''out.xlsx'') = Inr False \<and>
   written (create_teacher_ranking_excel exact_arith (\<lambda>i. i) (\<lambda>p. FileNotFound) (\<lambda>p t. None) ''in.xlsx'' ''out.xlsx'') = None \<and>
   printed (create_teacher_ranking_excel exact_arith (\<lambda>i. i) (\<lambda>p. FileNotFound) (\<lambda>p t. None) ''in.xlsx'' ''out.xlsx'') =
     [InputNotFound ''in.xlsx''] \<and>
   returned (create_teacher_ranking_excel exact_arith (\<lambda>i. i) (\<lambda>p. ReadFailed ''not a zip file'') (\<lambda>p t. None) ''in.xlsx'' ''out.xlsx'') = Inr False \<and>
   written (create_teacher_ranking_excel exact_arith (\<lambda>i. i) (\<lambda>p. ReadFailed ''not a zip file'') (\<lambda>p t. None) ''in.xlsx'' ''out.xlsx'') = None \<and>
   printed (create_teacher_ranking_excel exact_arith (\<lambda>i. i) (\<lambda>p. ReadFailed ''not a zip file'') (\<lambda>p t. None) ''in.xlsx'' ''out.xlsx'') =
     [InputReadError ''not a zip file'']"
  using read_failure_aborts [where read_excel = "\<lambda>p. FileNotFound" and inp = "''in.xlsx''"
      and A = exact_arith and tie = "\<lambda>i. i" and to_excel = "\<lambda>p t. None" and outp = "''out.xlsx''"]
    read_failure_aborts [where read_excel = "\<lambda>p. ReadFailed ''not a zip file''" and inp = "''in.xlsx''"
      and A = exact_arith and tie = "\<lambda>i. i" and to_excel = "\<lambda>p t. None" and outp = "''out.xlsx''"]
  by simp

subsection \<open>Means\<close>



subsection \<open>Ranks\<close>

text \<open>
  C2. When the function returns True, the table it wrote has the ranks 1, 2, ..., N in
  this order, N being its number of rows, and the mean score never increases from a row
  to a later one.
\<close>

theorem ranks_contiguous_means_descending:
  assumes "returned (create_teacher_ranking_excel A tie read_excel to_excel inp outp) = Inr True"
  shows "\<exists>t. written (create_teacher_ranking_excel A tie read_excel to_excel inp outp) = Some (outp, t) \<and>
           map rank t = [1..<Suc (length t)] \<and>
           (\<forall>i j. i \<le> j \<and> j < length t \<longrightarrow> mean_score (t ! j) \<le> mean_score (t ! i))"
proof -
  from returned_TrueD [OF assms] obtain t where
    w: "written (create_teacher_ranking_excel A tie read_excel to_excel inp outp) = Some (outp, t)" by blast
  from written_SomeD [OF w] obtain avgs where t: "t = add_rank (sort_values tie avgs)" by blast
  have len: "length t = length avgs" by (simp add: t add_rank_length sort_values_length)
  have "map rank t = [1..<Suc (length t)]"
    by (simp add: t add_rank_ranks add_rank_length del: upt_Suc)
  moreover have "\<forall>i j. i \<le> j \<and> j < length t \<longrightarrow> mean_score (t ! j) \<le> mean_score (t ! i)"
  proof (intro allI impI)
    fix i j assume ij: "i \<le> j \<and> j < length t"
    then have "snd (sort_values tie avgs ! j) \<le> snd (sort_values tie avgs ! i)"
      using len by (simp add: sort_values_descending)
    with ij len show "mean_score (t ! j) \<le> mean_score (t ! i)"
      by (simp add: t add_rank_nth sort_values_length)
  qed
  ultimately show ?thesis using w by blast
qed

theorem ranks_contiguous_means_descending_witness:
  "\<exists>t. written (create_teacher_ranking_excel exact_arith (\<lambda>i. i)
            (\<lambda>p. Loaded [(''Sheet1'', [[Some (Text ''Alice''), Some (Text ''Bob'')],
                                       [Some (Number (5 :: real)), Some (Number (9 :: real))],
                                       [Some (Number (7 :: real)), None]])])
            (\<lambda>p t. None) ''in.xlsx'' ''out.xlsx'') = Some (''out.xlsx'', t) \<and>
       map rank t = [1..<Suc (length t)] \<and>
       (\<forall>i j. i \<le> j \<and> j < length t \<longrightarrow> mean_score (t ! j) \<le> mean_score (t ! i))"
proof -
  have h: "returned (create_teacher_ranking_excel exact_arith (\<lambda>i. i)
            (\<lambda>p. Loaded [(''Sheet1'', [[Some (Text ''Alice''), Some (Text ''Bob'')],
                                       [Some (Number (5 :: real)), Some (Number (9 :: real))],
                                       [Some (Number (7 :: real)), None]])])
            (\<lambda>p t. None) ''in.xlsx'' ''out.xlsx'') = Inr True" by code_simp
  from ranks_contiguous_means_descending [OF h] show ?thesis .
qed

subsection \<open>No teacher at all\<close>

text \<open>
  C6. When the sheets have been processed and the dictionary is empty, the function
  prints the no-data line last, returns False and writes no file. Every sheet of the
  workbook is then empty, and each got its warning.
\<close>

theorem no_data_reports_failure:
  assumes "read_excel inp = Loaded wb" and "sheets_loop wb [] [] = (Inr [], out)"
  shows "returned (create_teacher_ranking_excel A tie read_excel to_excel inp outp) = Inr False \<and>
         written (create_teacher_ranking_excel A tie read_excel to_excel inp outp) = None \<and>
         printed (create_teacher_ranking_excel A tie read_excel to_excel inp outp) = out @ [NoDataFound] \<and>
         (\<forall>(n, df) \<in> set wb. df_empty df) \<and>
         out = map (\<lambda>(n, df). EmptySheetWarning n) wb"
proof -
  from no_keys_all_empty [OF assms(2)] have e: "\<forall>(n, df) \<in> set wb. df_empty df" .
  from sheets_loop_all_empty [OF e, of "[]" "[]"] assms(2)
  have o: "out = map (\<lambda>(n, df). EmptySheetWarning n) wb" by simp
  from assms have "create_teacher_ranking_excel A tie read_excel to_excel inp outp =
      \<lparr>returned = Inr False, printed = out @ [NoDataFound], written = None\<rparr>"
    by (simp add: create_teacher_ranking_excel_def)
  with e o show ?thesis by simp
qed

theorem no_data_reports_failure_witness:
  "returned (create_teacher_ranking_excel exact_arith (\<lambda>i. i) (\<lambda>p. Loaded [(''Sheet1'', [])]) (\<lambda>p t. None) ''in.xlsx'' ''out.xlsx'') = Inr False \<and>
   written (create_teacher_ranking_excel exact_arith (\<lambda>i. i) (\<lambda>p. Loaded [(''Sheet1'', [])]) (\<lambda>p t. None) ''in.xlsx'' ''out.xlsx'') = None \<and>
   printed (create_teacher_ranking_excel exact_arith (\<lambda>i. i) (\<lambda>p. Loaded [(''Sheet1'', [])]) (\<lambda>p t. None) ''in.xlsx'' ''out.xlsx'')
     = [EmptySheetWarning ''Sheet1'', NoDataFound]"
proof -
  have h: "sheets_loop [(''Sheet1'', [] :: real dataframe)] [] [] = (Inr [], [EmptySheetWarning ''Sheet1''])"
    by (simp add: df_empty_def)
  from no_data_reports_failure [where read_excel = "\<lambda>p. Loaded [(''Sheet1'', [])]"
      and inp = "''in.xlsx''" and wb = "[(''Sheet1'', [])]" and out = "[EmptySheetWarning ''Sheet1'']"
      and A = exact_arith and tie = "\<lambda>i. i" and to_excel = "\<lambda>p t. None" and outp = "''out.xlsx''"] h
  show ?thesis by simp
qed

subsection \<open>One entry per name, merged across sheets\<close>

text \<open>
  C3. After the sheets are processed, the dictionary has exactly one entry for each
  cleaned name met in some sheet, the keys standing in the order of first encounter,
  and the list under a name is the concatenation, in sheet order, of what each sheet
  contributes under that name: the non-empty cells, in row order, of the column that
  bears the name.
\<close>

theorem scores_merged_across_sheets:
  assumes "sheets_loop wb [] [] = (Inr d, out)"
  shows "map fst d = first_encounters (concat (map (\<lambda>(n, df). sheet_names df) wb)) \<and>
         distinct (map fst d) \<and>
         set (map fst d) = (\<Union>(n, df) \<in> set wb. set (sheet_names df)) \<and>
         (\<forall>k \<in> set (map fst d).
            map_of d k = Some (concat (map (\<lambda>(n, df). sheet_scores k df) wb))) \<and>
         (\<forall>(n, df) \<in> set wb. \<forall>row0 rows j. df = row0 # rows \<and> j < length row0 \<longrightarrow>
            sheet_scores (cleaned_teacher_names row0 ! j) df = dropna (column rows j))"
proof -
  note L = sheets_loop_Inr [OF assms]
  from sheets_loop_keys [OF assms]
  have 0: "map fst d = first_encounters (concat (map (\<lambda>(n, df). sheet_names df) wb))"
    by (simp add: first_encounters_def)
  from L have 1: "distinct (map fst d)" by simp
  from L have 2: "set (map fst d) = (\<Union>(n, df) \<in> set wb. set (sheet_names df))" by simp
  from L have 3: "\<And>k. scores_of d k = concat (map (\<lambda>(n, df). sheet_scores k df) wb)"
    by (simp add: scores_of_def)
  have 4: "\<forall>k \<in> set (map fst d). map_of d k = Some (concat (map (\<lambda>(n, df). sheet_scores k df) wb))"
    using map_of_scores_of [of _ d] 3 by simp
  have 5: "\<forall>(n, df) \<in> set wb. \<forall>row0 rows j. df = row0 # rows \<and> j < length row0 \<longrightarrow>
            sheet_scores (cleaned_teacher_names row0 ! j) df = dropna (column rows j)"
  proof (intro ballI, clarify)
    fix n row0 rows j
    assume m: "(n, row0 # rows) \<in> set wb" and j: "j < length row0"
    from L m have "distinct (sheet_names (row0 # rows))" by blast
    then have "distinct (cleaned_teacher_names row0)" by (simp add: sheet_names_def)
    from sheet_scores_column [OF this j]
    show "sheet_scores (cleaned_teacher_names row0 ! j) (row0 # rows) = dropna (column rows j)" .
  qed
  from 0 1 2 4 5 show ?thesis by blast
qed

theorem scores_merged_across_sheets_witness:
  "map fst ([(Text ''Alice'', [Number 5, Number 7, Number 3, Number 8]),
             (Text ''Bob'', [Number 9, Number 4])] :: real scores_dict) =
     first_encounters [Text ''Alice'', Text ''Bob'', Text ''Bob'', Text ''Alice''] \<and>
   map_of ([(Text ''Alice'', [Number 5, Number 7, Number 3, Number 8]),
            (Text ''Bob'', [Number 9, Number 4])] :: real scores_dict) (Text ''Alice'') =
     Some (dropna [Some (Number (5 :: real)), Some (Number (7 :: real))] @ dropna [Some (Number (3 :: real)), Some (Number (8 :: real))])"
proof -
  let ?math = "[[Some (Text ''Alice''), Some (Text ''Bob'')],
                [Some (Number (5 :: real)), Some (Number (9 :: real))],
                [Some (Number (7 :: real)), None]]"
  let ?art = "[[Some (Text ''Bob''), Some (Text ''Alice'')],
               [None, Some (Number (3 :: real))],
               [Some (Number (4 :: real)), Some (Number (8 :: real))]]"
  let ?d = "[(Text ''Alice'', [Number 5, Number 7, Number 3, Number 8]),
             (Text ''Bob'', [Number 9, Number 4])] :: real scores_dict"
  have h: "sheets_loop [(''Math'', ?math), (''Art'', ?art)] [] [] = (Inr ?d, [])"
    by code_simp
  have nm: "sheet_names ?math = [Text ''Alice'', Text ''Bob'']" by code_simp
  have na: "sheet_names ?art = [Text ''Bob'', Text ''Alice'']" by code_simp
  have sm: "sheet_scores (Text ''Alice'') ?math = dropna [Some (Number (5 :: real)), Some (Number (7 :: real))]"
    by code_simp
  have sa: "sheet_scores (Text ''Alice'') ?art = dropna [Some (Number (3 :: real)), Some (Number (8 :: real))]"
    by code_simp
  let ?wb = "[(''Math'', ?math), (''Art'', ?art)]"
  note T = scores_merged_across_sheets [OF h]
  from T have a: "map fst ?d = first_encounters (concat (map (\<lambda>(n, df). sheet_names df) ?wb))"
    by (rule conjunct1)
  have a': "concat (map (\<lambda>(n, df). sheet_names df) ?wb) =
              [Text ''Alice'', Text ''Bob'', Text ''Bob'', Text ''Alice'']"
    by (simp add: nm na)
  from T have "\<forall>k \<in> set (map fst ?d).
      map_of ?d k = Some (concat (map (\<lambda>(n, df). sheet_scores k df) ?wb))"
    by blast
  then have b: "map_of ?d (Text ''Alice'') =
      Some (concat (map (\<lambda>(n, df). sheet_scores (Text ''Alice'') df) ?wb))"
    by simp
  have b': "concat (map (\<lambda>(n, df). sheet_scores (Text ''Alice'') df) ?wb) =
      dropna [Some (Number (5 :: real)), Some (Number 7)] @ dropna [Some (Number 3), Some (Number 8)]"
    by (simp add: sm sa)
  from a have A: "map fst ?d =
      first_encounters [Text ''Alice'', Text ''Bob'', Text ''Bob'', Text ''Alice'']"
    unfolding a' .
  from b have B: "map_of ?d (Text ''Alice'') =
      Some (dropna [Some (Number (5 :: real)), Some (Number 7)] @ dropna [Some (Number 3), Some (Number 8)])"
    unfolding b' .
  from A B show ?thesis by (rule conjI)
qed

subsection \<open>Which cells are appended\<close>

text \<open>
  A text cell below a teacher's name is not numeric, and it is appended all the same:
  \<open>dropna\<close> removes the empty cells only.
\<close>

theorem text_cell_appended:
  "sheets_loop [(''Sheet1'', [[Some (Text ''Ann'')], [Some (Text ''absent'')], [Some (Number (4 :: real))]])] [] []
     = (Inr [(Text ''Ann'', [Text ''absent'', Number (4 :: real)])], [])"
  by code_simp

text \<open>
  C4, amended. For a sheet with row 0 and a column \<open>j\<close> of it, the cells appended to the
  list of that column's teacher are exactly the non-empty cells of the column below
  row 0, numbers and texts alike, in row order; they stand in the teacher's list after
  the contributions of the earlier sheets and before those of the later ones.
\<close>

theorem present_cells_appended_in_row_order:
  assumes "sheets_loop (pre @ (n, row0 # rows) # post) [] [] = (Inr d, out)"
      and "j < length row0"
  shows "scores_of d (cleaned_teacher_names row0 ! j) =
           concat (map (\<lambda>(n, df). sheet_scores (cleaned_teacher_names row0 ! j) df) pre) @
           dropna (column rows j) @
           concat (map (\<lambda>(n, df). sheet_scores (cleaned_teacher_names row0 ! j) df) post) \<and>
         map Some (dropna (column rows j)) = filter (\<lambda>c. c \<noteq> None) (map (\<lambda>r. cell_at r j) rows)"
proof -
  note L = sheets_loop_Inr [OF assms(1)]
  from L have "distinct (sheet_names (row0 # rows))" by auto
  then have dc: "distinct (cleaned_teacher_names row0)" by (simp add: sheet_names_def)
  from L have "scores_of d (cleaned_teacher_names row0 ! j) =
      concat (map (\<lambda>(n, df). sheet_scores (cleaned_teacher_names row0 ! j) df) (pre @ (n, row0 # rows) # post))"
    by (simp add: scores_of_def)
  then have "scores_of d (cleaned_teacher_names row0 ! j) =
           concat (map (\<lambda>(n, df). sheet_scores (cleaned_teacher_names row0 ! j) df) pre) @
           dropna (column rows j) @
           concat (map (\<lambda>(n, df). sheet_scores (cleaned_teacher_names row0 ! j) df) post)"
    by (simp add: sheet_scores_column [OF dc assms(2)])
  moreover have "map Some (dropna (column rows j)) = filter (\<lambda>c. c \<noteq> None) (map (\<lambda>r. cell_at r j) rows)"
    by (simp add: dropna_present column_def)
  ultimately show ?thesis by blast
qed

theorem present_cells_appended_in_row_order_witness:
  "scores_of [(Text ''Ann'', [Text ''absent'', Number (4 :: real)])] (Text ''Ann'') = [Text ''absent'', Number (4 :: real)] \<and>
   map Some (dropna (column [[Some (Text ''absent'')], [None], [Some (Number (4 :: real))]] 0)) =
     [Some (Text ''absent''), Some (Number (4 :: real))]"
proof -
  have h: "sheets_loop ([] @ (''Sheet1'', [Some (Text ''Ann'')] # [[Some (Text ''absent'')], [None], [Some (Number (4 :: real))]]) # []) [] []
     = (Inr [(Text ''Ann'', [Text ''absent'', Number (4 :: real)])], [])"
    by code_simp
  have j: "0 < length [Some (Text ''Ann'') :: real cell]" by simp
  have c: "dropna (column [[Some (Text ''absent'')], [None], [Some (Number (4 :: real))]] 0) = [Text ''absent'', Number (4 :: real)]"
    by code_simp
  have k: "cleaned_teacher_names [Some (Text ''Ann'')] ! 0 = (Text ''Ann'' :: real pyval)"
    by code_simp
  from present_cells_appended_in_row_order [OF h j] c k show ?thesis by simp
qed

subsection \<open>Placeholders for blank names\<close>

text \<open>
  C5, amended. A name of row 0 that is missing or blank at column \<open>i\<close> becomes the
  placeholder \<open>Unnamed_Teacher_i\<close>, a name that is not blank is kept as it is, and two
  blank columns of the same sheet get different keys.
\<close>

theorem placeholder_and_verbatim:
  fixes names :: "'n cell list"
  assumes "i < length names"
  shows "(\<not> keeps_name (names ! i) \<longrightarrow> cleaned_teacher_names names ! i = unnamed_teacher i) \<and>
         (keeps_name (names ! i) \<longrightarrow> Some (cleaned_teacher_names names ! i) = names ! i) \<and>
         (\<forall>j < length names. j \<noteq> i \<and> \<not> keeps_name (names ! i) \<and> \<not> keeps_name (names ! j) \<longrightarrow>
              cleaned_teacher_names names ! i \<noteq> cleaned_teacher_names names ! j)"
proof (intro conjI impI allI)
  assume "\<not> keeps_name (names ! i)"
  with assms show "cleaned_teacher_names names ! i = unnamed_teacher i"
    by (simp add: nth_cleaned clean_name_def)
next
  assume k: "keeps_name (names ! i)"
  then obtain v where "names ! i = Some v" by (cases "names ! i") auto
  with k assms show "Some (cleaned_teacher_names names ! i) = names ! i"
    by (simp add: nth_cleaned clean_name_def)
next
  fix j assume j: "j < length names"
    and h: "j \<noteq> i \<and> \<not> keeps_name (names ! i) \<and> \<not> keeps_name (names ! j)"
  show "cleaned_teacher_names names ! i \<noteq> cleaned_teacher_names names ! j"
  proof
    assume "cleaned_teacher_names names ! i = cleaned_teacher_names names ! j"
    with assms j h have "(unnamed_teacher i :: 'n pyval) = unnamed_teacher j"
      by (simp add: nth_cleaned clean_name_def)
    with h show False by (auto dest: unnamed_teacher_inj)
  qed
qed

theorem placeholder_and_verbatim_witness:
  "cleaned_teacher_names [Some (Text ''Ann''), Some (Text ''  ''), None] ! 1 =
     (Text ''Unnamed_Teacher_1'' :: real pyval) \<and>
   cleaned_teacher_names [Some (Text ''Ann''), Some (Text ''  ''), None] ! 0 =
     (Text ''Ann'' :: real pyval) \<and>
   cleaned_teacher_names [Some (Text ''Ann''), Some (Text ''  ''), None :: real cell] ! 1 \<noteq>
     cleaned_teacher_names [Some (Text ''Ann''), Some (Text ''  ''), None] ! 2"
proof -
  let ?names = "[Some (Text ''Ann''), Some (Text ''  ''), None] :: real cell list"
  have b1: "\<not> keeps_name (?names ! 1)" by code_simp
  have b2: "\<not> keeps_name (?names ! 2)" by simp
  have k0: "keeps_name (?names ! 0)" by code_simp
  have u: "unnamed_teacher 1 = (Text ''Unnamed_Teacher_1'' :: real pyval)" by code_simp
  have l: "(1::nat) < length ?names" "(0::nat) < length ?names" "(2::nat) < length ?names" by simp_all
  from placeholder_and_verbatim [OF l(1)] b1 b2 l(3) u
  have "cleaned_teacher_names ?names ! 1 = Text ''Unnamed_Teacher_1''"
    and "cleaned_teacher_names ?names ! 1 \<noteq> cleaned_teacher_names ?names ! 2"
    by auto
  moreover from placeholder_and_verbatim [OF l(2)] k0
  have "cleaned_teacher_names ?names ! 0 = Text ''Ann''" by simp
  ultimately show ?thesis by blast
qed

text \<open>
  Two columns of one sheet can share a key: a kept name may spell the placeholder of a
  blank column, and two kept names may be equal.
\<close>

theorem column_keys_collide:
  "\<not> distinct (cleaned_teacher_names [Some (Text ''Unnamed_Teacher_1''), None :: real cell]) \<and>
   \<not> distinct (cleaned_teacher_names [Some (Text ''Ann''), Some (Text ''Ann'') :: real cell])"
  by code_simp

subsection \<open>Number of rows\<close>




subsection \<open>The same name twice in one sheet\<close>

text \<open>
  C9. When a sheet of the workbook has the same kept name in two columns of row 0, the
  call ends with an AttributeError that nothing catches: it returns no boolean and
  writes no file.
\<close>

theorem duplicate_name_raises:
  assumes "read_excel inp = Loaded wb"
      and "(n, row0 # rows) \<in> set wb"
      and "i < length row0" and "j < length row0" and "i \<noteq> j"
      and "row0 ! i = row0 ! j" and "keeps_name (row0 ! i)"
  shows "returned (create_teacher_ranking_excel A tie read_excel to_excel inp outp) = Inl AttributeError \<and>
         written (create_teacher_ranking_excel A tie read_excel to_excel inp outp) = None"
proof -
  let ?cols = "cleaned_teacher_names row0"
  from assms(7) have "Some (?cols ! i) = row0 ! i"
    using assms(3) by (simp add: nth_cleaned keeps_name_clean)
  moreover from assms(6,7) have "Some (?cols ! j) = row0 ! j"
    using assms(4) by (simp add: nth_cleaned keeps_name_clean)
  ultimately have "Some (?cols ! i) = Some (?cols ! j)" using assms(6) by (simp only:)
  then have "?cols ! i = ?cols ! j" by (simp only: option.inject)
  with assms(3,4,5) have "\<not> distinct ?cols"
    by (auto simp: distinct_conv_nth)
  then have "\<not> distinct (sheet_names (row0 # rows))" by (simp add: sheet_names_def)
  from sheets_loop_duplicate [OF assms(2) this, of "[]" "[]"] obtain out where
    "sheets_loop wb [] [] = (Inl AttributeError, out)" by blast
  with assms(1) have "create_teacher_ranking_excel A tie read_excel to_excel inp outp =
           \<lparr>returned = Inl AttributeError, printed = out, written = None\<rparr>"
    by (rule run_raises)
  then show ?thesis by simp
qed

theorem duplicate_name_raises_witness:
  "returned (create_teacher_ranking_excel exact_arith (\<lambda>i. i)
      (\<lambda>p. Loaded [(''Sheet1'', [[Some (Text ''Ann''), Some (Text ''Ann'')],
                                [Some (Number (5 :: real)), Some (Number (9 :: real))]])])
      (\<lambda>p t. None) ''in.xlsx'' ''out.xlsx'') = Inl AttributeError \<and>
   written (create_teacher_ranking_excel exact_arith (\<lambda>i. i)
      (\<lambda>p. Loaded [(''Sheet1'', [[Some (Text ''Ann''), Some (Text ''Ann'')],
                                [Some (Number (5 :: real)), Some (Number (9 :: real))]])])
      (\<lambda>p t. None) ''in.xlsx'' ''out.xlsx'') = None"
proof -
  let ?row0 = "[Some (Text ''Ann''), Some (Text ''Ann'')]"
  let ?wb = "[(''Sheet1'', [?row0, [Some (Number (5 :: real)), Some (Number (9 :: real))]])]"
  have h2: "(''Sheet1'', ?row0 # [[Some (Number (5 :: real)), Some (Number (9 :: real))]]) \<in> set ?wb" by simp
  have h3: "0 < length ?row0" and h4: "1 < length ?row0" and h5: "(0::nat) \<noteq> 1" by simp_all
  have h6: "?row0 ! 0 = ?row0 ! 1" by simp
  have h7: "keeps_name (?row0 ! 0)" by code_simp
  from duplicate_name_raises [where read_excel = "\<lambda>p. Loaded ?wb" and inp = "''in.xlsx''"
      and A = exact_arith and tie = "\<lambda>i. i"
      and to_excel = "\<lambda>p t. None" and outp = "''out.xlsx''", OF _ h2 h3 h4 h5 h6 h7]
  show ?thesis by simp
qed

subsection \<open>Blank names at the same column of two sheets\<close>

text \<open>
  C10. When two sheets both have a blank or missing name at column \<open>i\<close> of row 0, both
  columns get the key \<open>Unnamed_Teacher_i\<close>; the dictionary has one entry under it, and
  its list is the concatenation over the sheets of their contributions under that key,
  which for each of the two sheets is the non-empty cells of its column \<open>i\<close>.
\<close>

theorem blank_columns_merge_across_sheets:
  assumes "sheets_loop wb [] [] = (Inr d, out)"
      and "(n1, row1 # rows1) \<in> set wb" and "(n2, row2 # rows2) \<in> set wb"
      and "i < length row1" and "i < length row2"
      and "\<not> keeps_name (row1 ! i)" and "\<not> keeps_name (row2 ! i)"
  shows "cleaned_teacher_names row1 ! i = unnamed_teacher i \<and>
         cleaned_teacher_names row2 ! i = unnamed_teacher i \<and>
         sheet_scores (unnamed_teacher i) (row1 # rows1) = dropna (column rows1 i) \<and>
         sheet_scores (unnamed_teacher i) (row2 # rows2) = dropna (column rows2 i) \<and>
         distinct (map fst d) \<and>
         map_of d (unnamed_teacher i) =
           Some (concat (map (\<lambda>(n, df). sheet_scores (unnamed_teacher i) df) wb))"
proof -
  note L = sheets_loop_Inr [OF assms(1)]
  have k1: "cleaned_teacher_names row1 ! i = unnamed_teacher i"
    using assms(4,6) by (simp add: nth_cleaned clean_name_def)
  have k2: "cleaned_teacher_names row2 ! i = unnamed_teacher i"
    using assms(5,7) by (simp add: nth_cleaned clean_name_def)
  from L assms(2) have "distinct (sheet_names (row1 # rows1))" by blast
  then have d1: "distinct (cleaned_teacher_names row1)" by (simp add: sheet_names_def)
  from L assms(3) have "distinct (sheet_names (row2 # rows2))" by blast
  then have d2: "distinct (cleaned_teacher_names row2)" by (simp add: sheet_names_def)
  from sheet_scores_column [OF d1 assms(4), of rows1] k1
  have s1: "sheet_scores (unnamed_teacher i) (row1 # rows1) = dropna (column rows1 i)" by simp
  from sheet_scores_column [OF d2 assms(5), of rows2] k2
  have s2: "sheet_scores (unnamed_teacher i) (row2 # rows2) = dropna (column rows2 i)" by simp
  from L have dist: "distinct (map fst d)" by simp
  have "unnamed_teacher i \<in> set (sheet_names (row1 # rows1))"
    using k1 assms(4) by (auto simp: sheet_names_def in_set_conv_nth)
  with L assms(2) have "unnamed_teacher i \<in> set (map fst d)" by blast
  from map_of_scores_of [OF this] L
  have "map_of d (unnamed_teacher i) =
           Some (concat (map (\<lambda>(n, df). sheet_scores (unnamed_teacher i) df) wb))"
    by (simp add: scores_of_def)
  with k1 k2 s1 s2 dist show ?thesis by blast
qed

theorem blank_columns_merge_across_sheets_witness:
  "cleaned_teacher_names [None] ! 0 = (Text ''Unnamed_Teacher_0'' :: real pyval) \<and>
   cleaned_teacher_names [Some (Text ''  '')] ! 0 = (Text ''Unnamed_Teacher_0'' :: real pyval) \<and>
   map_of ([(Text ''Unnamed_Teacher_0'', [Number 1, Number 2])] :: real scores_dict)
       (Text ''Unnamed_Teacher_0'') =
     Some (dropna (column [[Some (Number (1 :: real))]] 0) @ dropna (column [[Some (Number (2 :: real))]] 0))"
proof -
  let ?wb = "[(''Math'', [[None], [Some (Number (1 :: real))]]), (''Art'', [[Some (Text ''  '')], [Some (Number (2 :: real))]])]"
  have h1: "sheets_loop ?wb [] [] = (Inr [(Text ''Unnamed_Teacher_0'', [Number (1 :: real), Number (2 :: real)])], [])"
    by code_simp
  have h2: "(''Math'', [None] # [[Some (Number (1 :: real))]]) \<in> set ?wb" by simp
  have h3: "(''Art'', [Some (Text ''  '')] # [[Some (Number (2 :: real))]]) \<in> set ?wb" by simp
  have h4: "0 < length [None :: real cell]"
    and h5: "0 < length [Some (Text ''  '') :: real cell]" by simp_all
  have h6: "\<not> keeps_name ([None :: real cell] ! 0)" by simp
  have h7: "\<not> keeps_name ([Some (Text ''  '') :: real cell] ! 0)" by code_simp
  have u: "unnamed_teacher 0 = (Text ''Unnamed_Teacher_0'' :: real pyval)" by code_simp
  from blank_columns_merge_across_sheets [OF h1 h2 h3 h4 h5 h6 h7] u
  show ?thesis by simp
qed

end
